theory Spec2Isabelle
  imports Complex_Main "HOL-Library.AList"
begin

section \<open>Python values and exceptions\<close>

text \<open>
  The values the connector handles: configuration and request payloads are JSON-like
  Python objects. A \<open>dict\<close> is an association list in insertion order with string keys;
  assignment \<open>d[k] = v\<close> is \<open>AList.update k v d\<close>, which overwrites in place when the key
  is present and appends otherwise, as Python does.
\<close>

datatype pyval =
    PyNone
  | PyBool bool
  | PyInt int
  | PyStr string
  | PyList "pyval list"
  | PyDict "(string \<times> pyval) list"

text \<open>
  Instances of Python's \<open>Exception\<close>. \<open>ChannelClosed\<close> is
  \<open>pika.exceptions.ChannelClosed\<close> (with its subclasses); \<open>ChildProcessError e\<close> wraps
  its cause as \<open>ChildProcessError(e)\<close> does.
\<close>

datatype exn =
    ChannelClosed
  | RuntimeError string
  | TypeError string
  | ValueError string pyval
  | KeyError string
  | AttributeError string
  | OverflowError string
  | Exception string
  | ChildProcessError exn

text \<open>Truth value of an object, as \<open>if x:\<close> and \<open>x or y\<close> test it.\<close>

fun truthy :: "pyval \<Rightarrow> bool" where
  "truthy PyNone = False"
| "truthy (PyBool b) = b"
| "truthy (PyInt i) = (i \<noteq> 0)"
| "truthy (PyStr s) = (s \<noteq> [])"
| "truthy (PyList xs) = (xs \<noteq> [])"
| "truthy (PyDict d) = (d \<noteq> [])"

text \<open>The builtin \<open>len\<close>: a \<open>TypeError\<close> on objects that have no length.\<close>

fun py_len :: "pyval \<Rightarrow> exn + nat" where
  "py_len (PyStr s) = Inr (length s)"
| "py_len (PyList xs) = Inr (length xs)"
| "py_len (PyDict d) = Inr (length d)"
| "py_len PyNone = Inl (TypeError ''object of type 'NoneType' has no len()'')"
| "py_len (PyBool b) = Inl (TypeError ''object of type 'bool' has no len()'')"
| "py_len (PyInt i) = Inl (TypeError ''object of type 'int' has no len()'')"

fun isinstance_dict :: "pyval \<Rightarrow> bool" where
  "isinstance_dict (PyDict d) = True"
| "isinstance_dict v = False"

section \<open>Python numbers\<close>

text \<open>
  A Python \<open>float\<close> is an IEEE 754 double: a finite value, an infinity or a NaN. A
  finite double is given by its value, a rational \<open>m * 2 ^ e\<close> with \<open>|m| < 2 ^ 53\<close>
  and \<open>- 1074 \<le> e \<le> 971\<close>; the two zeros are not told apart (they compare equal). A
  Python \<open>int\<close> is unbounded.
\<close>

datatype pyfloat = Finite rat | PosInf | NegInf | NaN

datatype pynum = IntNum int | FloatNum pyfloat

text \<open>Rounding to the nearest integer, a tie going to the even one.\<close>

definition round_half_even :: "rat \<Rightarrow> int" where
  "round_half_even x =
     (let f = \<lfloor>x\<rfloor>; d = x - of_int f
      in if d < 1 / 2 then f else if 1 / 2 < d then f + 1 else if even f then f else f + 1)"

text \<open>
  Rounding a rational that is not negative to a double, to nearest with ties to even:
  with the smallest exponent \<open>e\<close> of a double for which the rounded quotient by
  \<open>2 ^ e\<close> fits into 53 bits, the result is that quotient times \<open>2 ^ e\<close>; when no
  exponent will do, the result is infinite.
\<close>

definition double_exponents :: "int list" where
  "double_exponents = [- 1074..971]"

definition round_pos :: "rat \<Rightarrow> pyfloat" where
  "round_pos q =
     (case find (\<lambda>e. round_half_even (q / 2 powi e) < 2 ^ 53) double_exponents of
        None \<Rightarrow> PosInf
      | Some e \<Rightarrow> Finite (of_int (round_half_even (q / 2 powi e)) * 2 powi e))"

fun float_neg :: "pyfloat \<Rightarrow> pyfloat" where
  "float_neg (Finite x) = Finite (- x)"
| "float_neg PosInf = NegInf"
| "float_neg NegInf = PosInf"
| "float_neg NaN = NaN"

definition round_double :: "rat \<Rightarrow> pyfloat" where
  "round_double q = (if 0 \<le> q then round_pos q else float_neg (round_pos (- q)))"

text \<open>The bound of the doubles: a float product that reaches it is infinite.\<close>

definition double_limit :: rat where
  "double_limit = 2 ^ 1024"

text \<open>The rationals that are doubles are those that rounding leaves as they are.\<close>

definition is_double :: "rat \<Rightarrow> bool" where
  "is_double x = (round_double x = Finite x)"

text \<open>
  The conversion of an int to a float, as arithmetic between an int and a float makes
  it: the int is rounded, and \<open>OverflowError\<close> is raised when it is beyond the doubles.
\<close>

definition float_of_int :: "int \<Rightarrow> exn + pyfloat" where
  "float_of_int i =
     (case round_double (of_int i) of
        Finite x \<Rightarrow> Inr (Finite x)
      | PosInf \<Rightarrow> Inl (OverflowError ''int too large to convert to float'')
      | NegInf \<Rightarrow> Inl (OverflowError ''int too large to convert to float'')
      | NaN \<Rightarrow> Inl (OverflowError ''int too large to convert to float''))"

text \<open>The product of two floats: rounded, infinite on overflow, never an exception.\<close>

fun float_mul :: "pyfloat \<Rightarrow> pyfloat \<Rightarrow> pyfloat" where
  "float_mul (Finite x) (Finite y) = round_double (x * y)"
| "float_mul NaN y = NaN"
| "float_mul x NaN = NaN"
| "float_mul (Finite x) PosInf = (if x = 0 then NaN else if 0 < x then PosInf else NegInf)"
| "float_mul (Finite x) NegInf = (if x = 0 then NaN else if 0 < x then NegInf else PosInf)"
| "float_mul PosInf (Finite y) = (if y = 0 then NaN else if 0 < y then PosInf else NegInf)"
| "float_mul NegInf (Finite y) = (if y = 0 then NaN else if 0 < y then NegInf else PosInf)"
| "float_mul PosInf PosInf = PosInf"
| "float_mul PosInf NegInf = NegInf"
| "float_mul NegInf PosInf = NegInf"
| "float_mul NegInf NegInf = PosInf"

text \<open>
  \<open>x * y\<close> on numbers: exact on two ints; otherwise an int operand is converted to
  a float first.
\<close>

fun py_mul :: "pynum \<Rightarrow> pynum \<Rightarrow> exn + pynum" where
  "py_mul (IntNum a) (IntNum b) = Inr (IntNum (a * b))"
| "py_mul (IntNum a) (FloatNum y) =
     (case float_of_int a of Inl e \<Rightarrow> Inl e | Inr x \<Rightarrow> Inr (FloatNum (float_mul x y)))"
| "py_mul (FloatNum x) (IntNum b) =
     (case float_of_int b of Inl e \<Rightarrow> Inl e | Inr y \<Rightarrow> Inr (FloatNum (float_mul x y)))"
| "py_mul (FloatNum x) (FloatNum y) = Inr (FloatNum (float_mul x y))"

text \<open>
  \<open>2 ** k\<close> for an int \<open>k\<close>: an int when \<open>k\<close> is not negative. For a negative \<open>k\<close> both
  operands are converted to floats and the result is the float power, which is the
  power of two rounded (\<open>0.0\<close> below the smallest double).
\<close>

definition py_pow2 :: "int \<Rightarrow> exn + pynum" where
  "py_pow2 k =
     (if 0 \<le> k then Inr (IntNum (2 ^ nat k))
      else case float_of_int k of
        Inl e \<Rightarrow> Inl e
      | Inr y \<Rightarrow> Inr (FloatNum (round_double (2 powi k))))"

text \<open>\<open>x <= y\<close> on numbers; an int and a float are compared by their values.\<close>

fun float_le :: "pyfloat \<Rightarrow> pyfloat \<Rightarrow> bool" where
  "float_le (Finite x) (Finite y) = (x \<le> y)"
| "float_le NaN y = False"
| "float_le x NaN = False"
| "float_le NegInf y = True"
| "float_le x PosInf = True"
| "float_le PosInf y = False"
| "float_le x NegInf = False"

fun num_le :: "pynum \<Rightarrow> pynum \<Rightarrow> bool" where
  "num_le (IntNum a) (IntNum b) = (a \<le> b)"
| "num_le (IntNum a) (FloatNum y) = float_le (Finite (of_int a)) y"
| "num_le (FloatNum x) (IntNum b) = float_le x (Finite (of_int b))"
| "num_le (FloatNum x) (FloatNum y) = float_le x y"

section \<open>connection_utils: get_timeout and the retry decorator\<close>

text \<open>
  \<open>get_timeout\<close> returns \<open>backoff_factor * (2 ** (number_of_retries - 1))\<close>, for a
  factor that is an int or a float. The power is computed first.
\<close>

definition get_timeout :: "pynum \<Rightarrow> int \<Rightarrow> exn + pynum" where
  "get_timeout backoff_factor number_of_retries =
     (case py_pow2 (number_of_retries - 1) of
        Inl e \<Rightarrow> Inl e
      | Inr pw \<Rightarrow> py_mul backoff_factor pw)"

text \<open>
  The parameters of \<open>retry(...)\<close>. Callbacks are named by strings and looked up on
  \<open>self\<close>; \<open>None\<close> and the empty string both count as "no callback" in \<open>if callback:\<close>.
\<close>

datatype cb_arg = Arg pyval | ArgExn exn | ArgSelf

record retry_params =
  callback_on_exceeded :: "string option"
  callback_on_attempt_failure :: "string option"
  num_retries :: int
  backoff_factor :: pynum
  callback_on_exceeded_args :: "cb_arg list"

definition retry_defaults :: retry_params where
  "retry_defaults =
     \<lparr> callback_on_exceeded = None, callback_on_attempt_failure = None,
       num_retries = 3, backoff_factor = IntNum 5, callback_on_exceeded_args = [] \<rparr>"

text \<open>What one call of the decorated function does: raise, or return a value.\<close>

datatype outcome = Raise exn | Return pyval

text \<open>
  The effects of the wrapper, in order: a call of the decorated function, a call of a
  method of \<open>self\<close> found by name with its arguments, a \<open>time.sleep\<close>.
\<close>

datatype retry_event =
    Call_function
  | Call_method string "cb_arg list"
  | Sleep pynum

text \<open>
  The loop over \<open>callback_on_attempt_failure_args\<close>: the strings \<open>'e'\<close> and \<open>'self'\<close> are
  replaced by the exception and by \<open>self\<close>. The list belongs to the closure of
  \<open>retry\<close>, so the replacement persists; it is threaded through the calls.
\<close>

definition subst_args :: "exn \<Rightarrow> cb_arg list \<Rightarrow> cb_arg list" where
  "subst_args e args =
     map (\<lambda>a. if a = Arg (PyStr ''e'') then ArgExn e
               else if a = Arg (PyStr ''self'') then ArgSelf else a) args"

definition on_attempt_failure :: "retry_params \<Rightarrow> exn \<Rightarrow> cb_arg list \<Rightarrow> retry_event list" where
  "on_attempt_failure p e args =
     (case callback_on_attempt_failure p of
        None \<Rightarrow> []
      | Some name \<Rightarrow> if name \<noteq> [] then [Call_method name (subst_args e args)] else [])"

definition on_exceeded :: "retry_params \<Rightarrow> retry_event list" where
  "on_exceeded p =
     (case callback_on_exceeded p of
        None \<Rightarrow> []
      | Some name \<Rightarrow> if name \<noteq> [] then [Call_method name (callback_on_exceeded_args p)] else [])"

text \<open>
  \<open>wrapper(self, num_attempts=0)\<close>, for a decorated function called without further
  arguments. \<open>function k\<close> is what the \<open>k\<close>-th call of the decorated function does. The
  result is the trace of effects, the closure's argument list afterwards, and how the
  wrapper ends: with the value it returns, or with the exception that leaves it. The
  body has no \<open>return\<close> statement, so the value is \<open>None\<close> on every path that returns;
  the value of the decorated function and of the recursive call are expression
  statements. An exception of \<open>get_timeout\<close> is raised inside the \<open>except\<close> clause and
  leaves the wrapper, also through the recursive calls around it. On a failure
  \<open>num_attempts\<close> is incremented and the recursive call is given \<open>num_attempts + 1\<close>.
  The callbacks and \<open>time.sleep\<close> are taken to return; the log lines are left out of
  the trace.
\<close>

function wrapper ::
  "retry_params \<Rightarrow> (nat \<Rightarrow> outcome) \<Rightarrow> cb_arg list \<Rightarrow> nat \<Rightarrow> int
     \<Rightarrow> retry_event list \<times> cb_arg list \<times> (exn + pyval)" where
  "wrapper p function args k num_attempts =
     (case function k of
        Return v \<Rightarrow> ([Call_function], args, Inr PyNone)
      | Raise e \<Rightarrow>
          (case get_timeout (backoff_factor p) num_attempts of
             Inl x \<Rightarrow> (Call_function # on_attempt_failure p e args, subst_args e args, Inl x)
           | Inr sleep_timeout \<Rightarrow>
               (if num_attempts < num_retries p
                then (case wrapper p function (subst_args e args) (Suc k) ((num_attempts + 1) + 1) of
                        (ev, args', r) \<Rightarrow>
                          (Call_function # on_attempt_failure p e args @ Sleep sleep_timeout # ev,
                           args',
                           (case r of Inl x \<Rightarrow> Inl x | Inr u \<Rightarrow> Inr PyNone)))
                else (Call_function # on_attempt_failure p e args @ Sleep sleep_timeout # on_exceeded p,
                      subst_args e args, Inr PyNone))))"
  by pat_completeness auto
termination
  by (relation "measure (\<lambda>(p, function, args, k, num_attempts). nat (num_retries p - num_attempts))") auto

definition count_calls :: "retry_event list \<Rightarrow> nat" where
  "count_calls ev = length (filter (\<lambda>x. x = Call_function) ev)"

declare wrapper.simps [simp del]

section \<open>connector: ConsumerThread\<close>

text \<open>
  Callables (callbacks, error handlers) are named; calling one is an event of the trace.
\<close>

type_synonym callable = string

record connection_parameters =
  host :: pyval
  port :: int
  virtual_host :: string
  credentials :: "pyval \<times> pyval"

text \<open>
  A \<open>ConsumerThread\<close>: the fields \<open>__init__\<close> stores, the state of its
  \<open>threading.Thread\<close> (\<open>daemon\<close>, \<open>started\<close>) and the \<open>is_open\<close> flags of its channel
  and connection.
\<close>

record consumer_thread =
  connection_params :: connection_parameters
  queue :: string
  callback_func :: callable
  error_func :: callable
  daemon :: bool
  started :: bool
  channel_is_open :: bool
  connection_is_open :: bool

text \<open>The body \<open>dict_to_b64\<close> makes of a request: an encoding of the dictionary.\<close>

datatype b64 = Dict_to_b64 "(string \<times> pyval) list"

text \<open>The calls into the broker client, the thread library and the log, as they happen.\<close>

datatype event =
    BlockingConnection connection_parameters
  | Channel
  | Basic_qos nat
  | Queue_declare string bool
  | Basic_consume callable string bool
  | Basic_publish string string b64 string
  | Channel_close
  | Connection_close
  | Start_consuming
  | Stop_consuming
  | Thread_start
  | Thread_join
  | Log_debug callable
  | Log_error exn
  | Error_func callable consumer_thread exn

text \<open>
  How the broker client answers one worker: for each call that the source guards with
  \<open>try\<close>, the exception it raises, if any. For \<open>start_consuming\<close> this includes an
  exception of the consumer callback, which leaves through the delivery loop.
\<close>

record pika_env =
  start_consuming_raises :: "exn option"
  stop_consuming_raises :: "exn option"
  channel_close_raises :: "exn option"
  connection_close_raises :: "exn option"

definition ConsumerThread_init ::
  "connection_parameters \<Rightarrow> string \<Rightarrow> callable \<Rightarrow> callable \<Rightarrow> bool
     \<Rightarrow> consumer_thread \<times> event list" where
  "ConsumerThread_init cp q callback_fn error_fn auto_ack =
     (\<lparr> connection_params = cp, queue = q, callback_func = callback_fn,
        error_func = error_fn, daemon = False, started = False,
        channel_is_open = True, connection_is_open = True \<rparr>,
      [BlockingConnection cp, Channel, Basic_qos 50, Queue_declare q False,
       Basic_consume callback_fn q auto_ack])"

text \<open>
  \<open>ConsumerThread.run\<close>: the first component is the exception that leaves \<open>run\<close>, the
  second the trace. \<open>except ChannelClosed\<close> logs at debug level; \<open>except Exception\<close>
  logs the error and calls \<open>error_func(self, e)\<close>, which is taken to return.
  \<open>Thread.run\<close>, called first, has no target to run.
\<close>

definition run :: "pika_env \<Rightarrow> consumer_thread \<Rightarrow> exn option \<times> event list" where
  "run env t =
     (case start_consuming_raises env of
        None \<Rightarrow> (None, [Start_consuming])
      | Some e \<Rightarrow>
          if e = ChannelClosed then (None, [Start_consuming, Log_debug (callback_func t)])
          else (None, [Start_consuming, Log_error e, Error_func (error_func t) t e]))"

definition close_channel :: "pika_env \<Rightarrow> consumer_thread \<Rightarrow> exn option \<times> consumer_thread \<times> event list" where
  "close_channel env t =
     (case channel_close_raises env of
        Some e \<Rightarrow> (Some e, t, [Channel_close])
      | None \<Rightarrow> (None, t\<lparr>channel_is_open := False\<rparr>, [Channel_close]))"

definition close_connection :: "pika_env \<Rightarrow> consumer_thread \<Rightarrow> exn option \<times> consumer_thread \<times> event list" where
  "close_connection env t =
     (case connection_close_raises env of
        Some e \<Rightarrow> (Some e, t, [Connection_close])
      | None \<Rightarrow> (None, t\<lparr>connection_is_open := False\<rparr>, [Connection_close]))"

text \<open>
  The \<open>try\<close> block of \<open>ConsumerThread.join\<close>: three steps in one block, left at the
  first exception.
\<close>

definition join_try :: "pika_env \<Rightarrow> consumer_thread \<Rightarrow> exn option \<times> consumer_thread \<times> event list" where
  "join_try env t =
     (case stop_consuming_raises env of
        Some e \<Rightarrow> (Some e, t, [Stop_consuming])
      | None \<Rightarrow>
          (case (if channel_is_open t then close_channel env t else (None, t, [])) of
             (Some e, t1, ev1) \<Rightarrow> (Some e, t1, Stop_consuming # ev1)
           | (None, t1, ev1) \<Rightarrow>
               (case (if connection_is_open t1 then close_connection env t1 else (None, t1, [])) of
                  (r, t2, ev2) \<Rightarrow> (r, t2, Stop_consuming # ev1 @ ev2))))"

text \<open>
  \<open>ConsumerThread.join\<close>: the \<open>except\<close> clause logs the exception of the block, the
  \<open>finally\<close> clause calls \<open>Thread.join\<close>, which raises \<open>RuntimeError\<close> on a thread that
  was never started.
\<close>

definition join :: "pika_env \<Rightarrow> consumer_thread \<Rightarrow> (exn + unit) \<times> consumer_thread \<times> event list" where
  "join env t =
     (case join_try env t of
        (r, t', ev) \<Rightarrow>
          ((if started t' then Inr ()
            else Inl (RuntimeError ''cannot join thread before it is started'')),
           t',
           ev @ (case r of Some x \<Rightarrow> [Log_error x] | None \<Rightarrow> []) @ [Thread_join]))"

section \<open>connector: MQConnector\<close>

record mq_connector =
  config :: pyval
  service_name :: string
  service_id :: string
  consumers :: "(string \<times> consumer_thread) list"

text \<open>\<open>obj[key]\<close> and \<open>obj.get(key, default)\<close> for a string key.\<close>

fun py_getitem :: "pyval \<Rightarrow> string \<Rightarrow> exn + pyval" where
  "py_getitem (PyDict d) key = (case map_of d key of None \<Rightarrow> Inl (KeyError key) | Some v \<Rightarrow> Inr v)"
| "py_getitem (PyStr s) key = Inl (TypeError ''string indices must be integers'')"
| "py_getitem (PyList xs) key = Inl (TypeError ''list indices must be integers or slices, not str'')"
| "py_getitem v key = Inl (TypeError ''object is not subscriptable'')"

fun py_get :: "pyval \<Rightarrow> string \<Rightarrow> pyval \<Rightarrow> exn + pyval" where
  "py_get (PyDict d) key dflt = Inr (case map_of d key of None \<Rightarrow> dflt | Some v \<Rightarrow> v)"
| "py_get v key dflt = Inl (AttributeError ''object has no attribute get'')"

definition mq_credentials :: "mq_connector \<Rightarrow> exn + pyval \<times> pyval" where
  "mq_credentials c =
     (if \<not> truthy (config c) then Inl (Exception ''Configuration is not set'')
      else case py_getitem (config c) ''users'' of
        Inl e \<Rightarrow> Inl e
      | Inr users \<Rightarrow>
          (case py_getitem users (service_name c) of
             Inl e \<Rightarrow> Inl e
           | Inr entry \<Rightarrow>
               (case py_get entry ''user'' (PyStr ''guest'') of
                  Inl e \<Rightarrow> Inl e
                | Inr user \<Rightarrow>
                    (case py_get entry ''password'' (PyStr ''guest'') of
                       Inl e \<Rightarrow> Inl e
                     | Inr password \<Rightarrow> Inr (user, password)))))"

text \<open>
  \<open>get_connection_params\<close>, called without keyword arguments. The builtin \<open>int\<close> that
  converts the configured port is the parameter \<open>py_int\<close>. The arguments are evaluated
  in the order host, port, credentials.
\<close>

definition get_connection_params ::
  "(pyval \<Rightarrow> exn + int) \<Rightarrow> mq_connector \<Rightarrow> string \<Rightarrow> exn + connection_parameters" where
  "get_connection_params py_int c vhost =
     (case py_get (config c) ''server'' (PyStr ''localhost'') of
        Inl e \<Rightarrow> Inl e
      | Inr h \<Rightarrow>
          (case py_get (config c) ''port'' (PyStr ''5672'') of
             Inl e \<Rightarrow> Inl e
           | Inr pv \<Rightarrow>
               (case py_int pv of
                  Inl e \<Rightarrow> Inl e
                | Inr pt \<Rightarrow>
                    (case mq_credentials c of
                       Inl e \<Rightarrow> Inl e
                     | Inr cr \<Rightarrow>
                         Inr \<lparr> host = h, port = pt, virtual_host = vhost, credentials = cr \<rparr>))))"

definition default_error_handler :: callable where
  "default_error_handler = ''default_error_handler''"

text \<open>
  \<open>register_consumer\<close>: \<open>self.consumers[name] = ConsumerThread(...)\<close>. The registry
  is a dictionary, so the assignment overwrites an entry of the same name. An exception
  of \<open>get_connection_params\<close> leaves the registry as it was; the constructor's calls
  to the broker are recorded and taken to return.
\<close>

definition register_consumer ::
  "(pyval \<Rightarrow> exn + int) \<Rightarrow> mq_connector \<Rightarrow> string \<Rightarrow> string \<Rightarrow> string \<Rightarrow> callable
     \<Rightarrow> callable option \<Rightarrow> bool \<Rightarrow> (exn + unit) \<times> mq_connector \<times> event list" where
  "register_consumer py_int c name vhost q callback on_error auto_ack =
     (let error_handler = (case on_error of None \<Rightarrow> default_error_handler | Some h \<Rightarrow> h) in
      case get_connection_params py_int c vhost of
        Inl e \<Rightarrow> (Inl e, c, [])
      | Inr cp \<Rightarrow>
          (case ConsumerThread_init cp q callback error_handler auto_ack of
             (t, ev) \<Rightarrow> (Inr (), c\<lparr>consumers := AList.update name t (consumers c)\<rparr>, ev)))"

text \<open>A registration request, and a sequence of them run one after the other.\<close>

record registration =
  reg_name :: string
  reg_vhost :: string
  reg_queue :: string
  reg_callback :: callable
  reg_on_error :: "callable option"
  reg_auto_ack :: bool

fun register_all ::
  "(pyval \<Rightarrow> exn + int) \<Rightarrow> mq_connector \<Rightarrow> registration list
     \<Rightarrow> (exn + unit) list \<times> mq_connector" where
  "register_all py_int c [] = ([], c)"
| "register_all py_int c (r # rs) =
     (case register_consumer py_int c (reg_name r) (reg_vhost r) (reg_queue r)
             (reg_callback r) (reg_on_error r) (reg_auto_ack r) of
        (res, c1, ev) \<Rightarrow>
          (case register_all py_int c1 rs of (ress, c2) \<Rightarrow> (res # ress, c2)))"

text \<open>
  The worker a registration puts into the registry, when the connection parameters can
  be built from the configuration.
\<close>

definition registered_worker ::
  "(pyval \<Rightarrow> exn + int) \<Rightarrow> mq_connector \<Rightarrow> registration \<Rightarrow> consumer_thread option" where
  "registered_worker py_int c r =
     (case get_connection_params py_int c (reg_vhost r) of
        Inl e \<Rightarrow> None
      | Inr cp \<Rightarrow>
          Some (fst (ConsumerThread_init cp (reg_queue r) (reg_callback r)
                       (case reg_on_error r of None \<Rightarrow> default_error_handler | Some h \<Rightarrow> h)
                       (reg_auto_ack r))))"

text \<open>
  \<open>run_consumers\<close>: the loop over the names. Assigning \<open>daemon\<close> on a thread that was
  started raises \<open>RuntimeError\<close>. The events are tagged with the worker's name.
\<close>

fun run_loop ::
  "(string \<times> consumer_thread) list \<Rightarrow> string list \<Rightarrow> bool
     \<Rightarrow> (exn + unit) \<times> (string \<times> consumer_thread) list \<times> (string \<times> event) list" where
  "run_loop cs [] d = (Inr (), cs, [])"
| "run_loop cs (name # names) d =
     (case map_of cs name of
        None \<Rightarrow> run_loop cs names d
      | Some t \<Rightarrow>
          if started t
          then (Inl (RuntimeError ''cannot set daemon status of active thread''), cs, [])
          else (case run_loop (AList.update name (t\<lparr>daemon := d, started := True\<rparr>) cs) names d of
                  (r, cs', ev) \<Rightarrow> (r, cs', (name, Thread_start) # ev)))"

definition run_consumers ::
  "mq_connector \<Rightarrow> string list \<Rightarrow> bool \<Rightarrow> (exn + unit) \<times> mq_connector \<times> (string \<times> event) list" where
  "run_consumers c names d =
     (case run_loop (consumers c) (if names = [] then map fst (consumers c) else names) d of
        (r, cs, ev) \<Rightarrow> (r, c\<lparr>consumers := cs\<rparr>, ev))"

text \<open>
  \<open>stop_consumers\<close>: the loop over the names. The \<open>raise ChildProcessError(e)\<close> of the
  \<open>except\<close> clause leaves the loop.
\<close>

fun stop_loop ::
  "(string \<Rightarrow> pika_env) \<Rightarrow> (string \<times> consumer_thread) list \<Rightarrow> string list
     \<Rightarrow> (exn + unit) \<times> (string \<times> consumer_thread) list \<times> (string \<times> event) list" where
  "stop_loop env cs [] = (Inr (), cs, [])"
| "stop_loop env cs (name # names) =
     (case map_of cs name of
        None \<Rightarrow> stop_loop env cs names
      | Some t \<Rightarrow>
          (case join (env name) t of
             (Inl e, t', ev) \<Rightarrow>
               (Inl (ChildProcessError e), AList.update name t' cs, map (Pair name) ev)
           | (Inr u, t', ev) \<Rightarrow>
               (case stop_loop env (AList.update name t' cs) names of
                  (r, cs', ev') \<Rightarrow> (r, cs', map (Pair name) ev @ ev'))))"

definition stop_consumers ::
  "(string \<Rightarrow> pika_env) \<Rightarrow> mq_connector \<Rightarrow> string list
     \<Rightarrow> (exn + unit) \<times> mq_connector \<times> (string \<times> event) list" where
  "stop_consumers env c names =
     (case stop_loop env (consumers c) (if names = [] then map fst (consumers c) else names) of
        (r, cs, ev) \<Rightarrow> (r, c\<lparr>consumers := cs\<rparr>, ev))"

subsection \<open>emit_mq_message\<close>

text \<open>
  The world of a publisher: the objects it shares with its caller, by reference; the
  generator behind \<open>uuid.uuid4().hex\<close> with the number of identifiers drawn so far; and
  the calls made on broker connections.
\<close>

type_synonym ref = nat
type_synonym connection = nat

record world =
  heap :: "ref \<Rightarrow> pyval"
  uuid4_hex :: "nat \<Rightarrow> string"
  uuid4_calls :: nat
  broker :: "(connection \<times> event) list"

definition create_unique_id :: "world \<Rightarrow> string \<times> world" where
  "create_unique_id w = (uuid4_hex w (uuid4_calls w), w\<lparr>uuid4_calls := Suc (uuid4_calls w)\<rparr>)"

text \<open>
  \<open>emit_mq_message\<close>. The condition is \<open>request_data and len(request_data) > 0 and
  isinstance(request_data, dict)\<close>, evaluated left to right: \<open>len\<close> is called on every
  object that is true, before its type is looked at. An absent or empty \<open>exchange\<close>
  becomes the empty string. The source has no handler around the three calls on the
  connection; they are recorded in the order made and taken to return.
\<close>

definition emit_mq_message ::
  "world \<Rightarrow> connection \<Rightarrow> string \<Rightarrow> ref \<Rightarrow> string option \<Rightarrow> (exn + string) \<times> world" where
  "emit_mq_message w conn q request_data exchange =
     (let v = heap w request_data in
      if \<not> truthy v then (Inl (ValueError ''Invalid request data provided: '' v), w)
      else case py_len v of
        Inl e \<Rightarrow> (Inl e, w)
      | Inr n \<Rightarrow>
          if \<not> n > 0 then (Inl (ValueError ''Invalid request data provided: '' v), w)
          else (case v of
            PyDict d \<Rightarrow>
              (case create_unique_id w of
                 (message_id, w1) \<Rightarrow>
                   let d' = AList.update ''message_id'' (PyStr message_id) d;
                       w2 = w1\<lparr>heap := (heap w1)(request_data := PyDict d')\<rparr>;
                       x = (case exchange of None \<Rightarrow> '''' | Some s \<Rightarrow> s)
                   in (Inr message_id,
                       w2\<lparr>broker := broker w2 @
                          [(conn, Channel),
                           (conn, Basic_publish x q (Dict_to_b64 d') ''1000''),
                           (conn, Channel_close)]\<rparr>))
          | _ \<Rightarrow> (Inl (ValueError ''Invalid request data provided: '' v), w)))"

section \<open>Reading traces\<close>

fun is_error_func :: "event \<Rightarrow> bool" where
  "is_error_func (Error_func h t e) = True"
| "is_error_func ev = False"

text \<open>
  A guarded block of steps, each given with the exception it raises, if any: the steps
  run in order up to the first one that raises, whose exception is logged; the steps
  after it do not run.
\<close>

fun guarded_block :: "(event \<times> exn option) list \<Rightarrow> event list" where
  "guarded_block [] = []"
| "guarded_block ((step, None) # rest) = step # guarded_block rest"
| "guarded_block ((step, Some e) # rest) = [step, Log_error e]"

text \<open>The steps \<open>ConsumerThread.join\<close> has to take for a worker, with the broker's answers.\<close>

definition shutdown_steps :: "pika_env \<Rightarrow> consumer_thread \<Rightarrow> (event \<times> exn option) list" where
  "shutdown_steps env t =
     (Stop_consuming, stop_consuming_raises env)
     # (if channel_is_open t then [(Channel_close, channel_close_raises env)] else [])
     @ (if connection_is_open t then [(Connection_close, connection_close_raises env)] else [])"

section \<open>Example states\<close>

text \<open>
  The builtin \<open>int\<close> on ints, bools and strings of decimal digits, the port values the
  examples use (\<open>int\<close> also accepts signs, blanks and underscores in a string).
\<close>

fun digit_value :: "char \<Rightarrow> nat option" where
  "digit_value c =
     (let n = (of_char c :: nat) in if 48 \<le> n \<and> n \<le> 57 then Some (n - 48) else None)"

fun decimal :: "nat \<Rightarrow> string \<Rightarrow> nat option" where
  "decimal acc [] = Some acc"
| "decimal acc (c # cs) =
     (case digit_value c of None \<Rightarrow> None | Some v \<Rightarrow> decimal (10 * acc + v) cs)"

fun int_of_pyval :: "pyval \<Rightarrow> exn + int" where
  "int_of_pyval (PyInt i) = Inr i"
| "int_of_pyval (PyBool b) = Inr (if b then 1 else 0)"
| "int_of_pyval (PyStr s) =
     (case (if s = [] then None else decimal 0 s) of
        None \<Rightarrow> Inl (ValueError ''invalid literal for int() with base 10: '' (PyStr s))
      | Some n \<Rightarrow> Inr (int n))"
| "int_of_pyval v = Inl (TypeError ''int() argument must be a string, a bytes-like object or a real number'')"

text \<open>The connector of the test suite: service \<open>test\<close>, no port configured.\<close>

definition test_connector :: mq_connector where
  "test_connector =
     \<lparr> config = PyDict [(''server'', PyStr ''localhost''),
                        (''users'', PyDict [(''test'', PyDict [(''user'', PyStr ''neon''),
                                                                 (''password'', PyStr ''secret'')])])],
       service_name = ''test'', service_id = ''0'', consumers = [] \<rparr>"

definition registration_of :: "string \<Rightarrow> string \<Rightarrow> callable \<Rightarrow> registration" where
  "registration_of name q callback =
     \<lparr> reg_name = name, reg_vhost = ''/test'', reg_queue = q, reg_callback = callback,
       reg_on_error = None, reg_auto_ack = False \<rparr>"

text \<open>
  The three workers of the test suite, of which \<open>run_consumers\<close> was asked to start
  the first and the third.
\<close>

definition test_registrations :: "registration list" where
  "test_registrations =
     [registration_of ''test1'' ''test'' ''callback_func_1'',
      registration_of ''test2'' ''test1'' ''callback_func_2'',
      (registration_of ''error'' ''error'' ''callback_func_error'')
        \<lparr>reg_on_error := Some ''handle_error''\<rparr>]"

definition second_not_started :: mq_connector where
  "second_not_started =
     fst (snd (run_consumers (snd (register_all int_of_pyval test_connector test_registrations))
       [''test1'', ''error''] True))"

text \<open>A broker client that raises nothing, and one whose \<open>stop_consuming\<close> raises.\<close>

definition quiet :: pika_env where
  "quiet = \<lparr> start_consuming_raises = None, stop_consuming_raises = None,
             channel_close_raises = None, connection_close_raises = None \<rparr>"

definition stream_lost :: pika_env where
  "stream_lost = quiet\<lparr>stop_consuming_raises := Some (Exception ''Stream connection lost'')\<rparr>"

definition callback_raises :: pika_env where
  "callback_raises = quiet\<lparr>start_consuming_raises := Some (Exception ''Exception to Handle'')\<rparr>"

definition closed_by_broker :: pika_env where
  "closed_by_broker = quiet\<lparr>start_consuming_raises := Some ChannelClosed\<rparr>"

text \<open>A worker as \<open>register_consumer\<close> makes it, after \<open>start\<close>.\<close>

definition test_params :: connection_parameters where
  "test_params =
     \<lparr> host = PyStr ''localhost'', port = 5672, virtual_host = ''/test'',
       credentials = (PyStr ''neon'', PyStr ''secret'') \<rparr>"

definition running_worker :: consumer_thread where
  "running_worker =
     (fst (ConsumerThread_init test_params ''error'' ''callback_func_error'' ''handle_error'' False))
     \<lparr> daemon := True, started := True \<rparr>"

text \<open>A generator of identifiers, and a world that holds one object and has drawn none.\<close>

definition uuid_demo :: "nat \<Rightarrow> string" where
  "uuid_demo n = ''0000000000000000000000000000000'' @ [''0123456789abcdef'' ! (n mod 16)]"

definition world_with :: "pyval \<Rightarrow> world" where
  "world_with v = \<lparr> heap = (\<lambda>r. v), uuid4_hex = uuid_demo, uuid4_calls = 0, broker = [] \<rparr>"


text \<open>The float \<open>0.1\<close>: the double nearest to one tenth.\<close>

definition tenth :: rat where
  "tenth = 3602879701896397 / 36028797018963968"

text \<open>An operation that fails on every call, and the decorator with a callback on exhaustion.\<close>

definition always_down :: "nat \<Rightarrow> outcome" where
  "always_down k = Raise (Exception ''down'')"

definition three_retries :: retry_params where
  "three_retries = retry_defaults\<lparr>callback_on_exceeded := Some ''on_exceeded''\<rparr>"

definition every_worker_quiet :: "string \<Rightarrow> pika_env" where
  "every_worker_quiet name = quiet"

section \<open>Rounding to a double\<close>

lemma double_exponents_iff: "e \<in> set double_exponents \<longleftrightarrow> - 1074 \<le> e \<and> e \<le> 971"
  by (simp only: double_exponents_def set_upto atLeastAtMost_iff)

lemma sorted_double_exponents: "sorted double_exponents"
  by (simp only: double_exponents_def sorted_upto)

lemma round_half_even_int [simp]: "round_half_even (of_int m) = m"
  by (simp add: round_half_even_def)

lemma round_half_even_ge:
  assumes "of_int n \<le> x"
  shows "n \<le> round_half_even x"
proof -
  have "n \<le> \<lfloor>x\<rfloor>" using assms by (simp add: le_floor_iff)
  then show ?thesis by (auto simp: round_half_even_def Let_def)
qed

lemma find_Some_mem:
  assumes "find P xs = Some x"
  shows "x \<in> set xs \<and> P x"
  using assms by (induction xs) (auto split: if_splits)

lemma find_first_sorted:
  assumes "sorted xs" and "e0 \<in> set xs" and "P e0"
  shows "\<exists>e. find P xs = Some e \<and> e \<le> e0"
  using assms
proof (induction xs)
  case Nil
  then show ?case by simp
next
  case (Cons x xs)
  show ?case
  proof (cases "P x")
    case True
    moreover have "x \<le> e0" using Cons.prems by auto
    ultimately show ?thesis by simp
  next
    case False
    then have "e0 \<in> set xs" using Cons.prems by auto
    moreover have "sorted xs" using Cons.prems by simp
    ultimately obtain e where "find P xs = Some e \<and> e \<le> e0"
      using Cons.IH Cons.prems(3) by blast
    then show ?thesis using False by simp
  qed
qed

text \<open>A value \<open>m * 2 ^ e\<close> within the format is rounded to itself.\<close>

lemma round_pos_exact:
  assumes e0: "- 1074 \<le> e0" "e0 \<le> 971" and m: "0 \<le> m" "m < 2 ^ 53"
    and q: "q = of_int m * 2 powi e0"
  shows "round_pos q = Finite q"
proof -
  let ?P = "\<lambda>e. round_half_even (q / 2 powi e) < 2 ^ 53"
  have "q / 2 powi e0 = of_int m" using q by simp
  then have P0: "?P e0" using m by simp
  have mem: "e0 \<in> set double_exponents" using e0 by (simp add: double_exponents_iff)
  obtain e where f: "find ?P double_exponents = Some e" and le: "e \<le> e0"
    using find_first_sorted [OF sorted_double_exponents mem, of ?P] P0 by blast
  have "q / 2 powi e = of_int m * 2 powi (e0 - e)"
    using q by (simp add: power_int_diff)
  also have "\<dots> = of_int m * 2 ^ nat (e0 - e)"
    using le by (simp add: power_int_def)
  also have "\<dots> = of_int (m * 2 ^ nat (e0 - e))" by simp
  finally have int: "q / 2 powi e = of_int (m * 2 ^ nat (e0 - e))" .
  have "of_int (round_half_even (q / 2 powi e)) * 2 powi e = q"
    unfolding int round_half_even_int using int [symmetric] by simp
  then show ?thesis unfolding round_pos_def f by simp
qed

lemma double_limit_eq: "2 ^ 53 * 2 powi 971 = double_limit"
  by (simp add: double_limit_def power_int_def)

lemma double_limit_pow: "(2::rat) ^ k < double_limit \<longleftrightarrow> k < 1024"
  unfolding double_limit_def by (rule power_strict_increasing_iff) simp

text \<open>A value of at least \<open>2 ^ 1024\<close> is rounded to infinity.\<close>

lemma round_pos_overflow:
  assumes "double_limit \<le> q"
  shows "round_pos q = PosInf"
proof -
  have "\<not> round_half_even (q / 2 powi e) < 2 ^ 53" if "e \<in> set double_exponents" for e
  proof -
    have e: "e \<le> 971" using that by (simp add: double_exponents_iff)
    have "(2::rat) powi e \<le> 2 powi 971"
      using e by (intro power_int_increasing) auto
    then have "(2::rat) ^ 53 * 2 powi e \<le> 2 ^ 53 * 2 powi 971" by simp
    also have "\<dots> = double_limit" by (rule double_limit_eq)
    finally have "(2::rat) ^ 53 * 2 powi e \<le> q" using assms by simp
    then have "(2::rat) ^ 53 \<le> q / 2 powi e"
      by (simp add: pos_le_divide_eq)
    then have "of_int (2 ^ 53) \<le> q / 2 powi e" by simp
    from round_half_even_ge [OF this] show ?thesis by simp
  qed
  then have "find (\<lambda>e. round_half_even (q / 2 powi e) < 2 ^ 53) double_exponents = None"
    by (simp add: find_None_iff)
  then show ?thesis unfolding round_pos_def by simp
qed

text \<open>A positive double has a mantissa and an exponent within the format.\<close>

lemma is_double_decompose:
  assumes "is_double x" and "0 < x"
  shows "\<exists>e m. - 1074 \<le> e \<and> e \<le> 971 \<and> 0 \<le> m \<and> m < 2 ^ 53 \<and> x = of_int m * 2 powi e"
proof -
  let ?P = "\<lambda>e. round_half_even (x / 2 powi e) < 2 ^ 53"
  have rp: "round_pos x = Finite x"
    using assms by (simp add: is_double_def round_double_def)
  then obtain e where f: "find ?P double_exponents = Some e"
    unfolding round_pos_def by (cases "find ?P double_exponents") auto
  have x: "x = of_int (round_half_even (x / 2 powi e)) * 2 powi e"
    using rp unfolding round_pos_def f by simp
  have e: "- 1074 \<le> e \<and> e \<le> 971" and lt: "round_half_even (x / 2 powi e) < 2 ^ 53"
    using find_Some_mem [OF f] by (simp_all add: double_exponents_iff)
  have "0 \<le> round_half_even (x / 2 powi e)"
  proof (rule round_half_even_ge)
    show "of_int 0 \<le> x / 2 powi e" using assms(2) by simp
  qed
  then show ?thesis using e lt x by blast
qed

text \<open>
  Scaling a positive double by a power of two is exact as long as the product is
  below \<open>2 ^ 1024\<close>, and infinite from there on.
\<close>

lemma round_double_scale:
  assumes "is_double x" and "0 < x"
  shows "round_double (x * 2 ^ k) =
           (if x * 2 ^ k < double_limit then Finite (x * 2 ^ k) else PosInf)"
proof (cases "x * 2 ^ k < double_limit")
  case False
  then have "round_pos (x * 2 ^ k) = PosInf" by (intro round_pos_overflow) simp
  moreover have "0 \<le> x * 2 ^ k" using assms(2) by simp
  ultimately show ?thesis using False by (simp add: round_double_def)
next
  case True
  obtain e m where e: "- 1074 \<le> e" "e \<le> 971" and m: "0 \<le> m" "m < 2 ^ 53"
    and x: "x = of_int m * 2 powi e"
    using is_double_decompose [OF assms] by blast
  have xk: "x * 2 ^ k = of_int m * 2 powi (e + int k)"
    using x by (simp add: power_int_add)
  have "round_pos (x * 2 ^ k) = Finite (x * 2 ^ k)"
  proof (cases "e + int k \<le> 971")
    case True
    show ?thesis
      by (rule round_pos_exact [of "e + int k" m]) (use e m True xk in auto)
  next
    case False
    define B :: rat where "B = 2 powi 971"
    have Bpos: "0 < B" by (simp add: B_def)
    have lim: "2 ^ 53 * B = double_limit" unfolding B_def by (rule double_limit_eq)
    let ?m = "m * 2 ^ nat (e + int k - 971)"
    have "(2::rat) powi (e + int k) = 2 powi ((e + int k - 971) + 971)" by simp
    also have "\<dots> = 2 powi (e + int k - 971) * B"
      unfolding B_def by (rule power_int_add) simp
    also have "(2::rat) powi (e + int k - 971) = 2 ^ nat (e + int k - 971)"
      using False by (simp add: power_int_def)
    finally have eq: "x * 2 ^ k = of_int ?m * B"
      using xk by simp
    have "of_int ?m * B < 2 ^ 53 * B"
      using \<open>x * 2 ^ k < double_limit\<close> eq lim by simp
    then have "(of_int ?m :: rat) < 2 ^ 53" using Bpos by simp
    then have "(of_int ?m :: rat) < of_int (2 ^ 53)" by simp
    then have lt: "?m < 2 ^ 53" by (simp only: of_int_less_iff)
    have ge: "0 \<le> ?m" using m by simp
    have eq': "x * 2 ^ k = of_int ?m * 2 powi 971" using eq by (simp only: B_def)
    show ?thesis
      by (rule round_pos_exact [of 971 ?m, OF _ _ ge lt eq']) simp_all
  qed
  moreover have "0 \<le> x * 2 ^ k" using assms(2) by simp
  ultimately show ?thesis using True by (simp add: round_double_def)
qed

text \<open>The conversion of a power of two: exact up to \<open>2 ^ 1023\<close>, an error from \<open>2 ^ 1024\<close>.\<close>

lemma is_double_one: "is_double 1"
proof -
  have "round_pos 1 = Finite 1"
    by (rule round_pos_exact [of 0 1]) auto
  then show ?thesis by (simp add: is_double_def round_double_def)
qed

lemma float_of_int_pow2:
  "float_of_int (2 ^ k) =
     (if k < 1024 then Inr (Finite (2 ^ k))
      else Inl (OverflowError ''int too large to convert to float''))"
proof -
  have "round_double (of_int (2 ^ k)) = round_double (1 * 2 ^ k)" by simp
  also have "\<dots> = (if (1::rat) * 2 ^ k < double_limit then Finite (1 * 2 ^ k) else PosInf)"
    by (rule round_double_scale [OF is_double_one]) simp
  also have "\<dots> = (if k < 1024 then Finite (2 ^ k) else PosInf)"
    using double_limit_pow [of k] by simp
  finally have "round_double (of_int (2 ^ k)) = (if k < 1024 then Finite (2 ^ k) else PosInf)" .
  then show ?thesis by (simp add: float_of_int_def)
qed

section \<open>get_timeout\<close>

lemma get_timeout_int:
  assumes "1 \<le> n"
  shows "get_timeout (IntNum b) n = Inr (IntNum (b * 2 ^ nat (n - 1)))"
  using assms by (simp add: get_timeout_def py_pow2_def)

lemma get_timeout_float_overflow:
  assumes "1025 \<le> n"
  shows "get_timeout (FloatNum f) n = Inl (OverflowError ''int too large to convert to float'')"
proof -
  have "\<not> nat (n - 1) < 1024" using assms by simp
  then show ?thesis
    using assms by (simp add: get_timeout_def py_pow2_def float_of_int_pow2)
qed

lemma get_timeout_float:
  assumes "is_double x" and "0 < x" and "1 \<le> n" and "n \<le> 1024"
  shows "get_timeout (FloatNum (Finite x)) n =
     Inr (FloatNum (if x * 2 ^ nat (n - 1) < double_limit then Finite (x * 2 ^ nat (n - 1)) else PosInf))"
proof -
  have "nat (n - 1) < 1024" using assms by simp
  then have "get_timeout (FloatNum (Finite x)) n =
      Inr (FloatNum (round_double (x * 2 ^ nat (n - 1))))"
    using assms(3) by (simp add: get_timeout_def py_pow2_def float_of_int_pow2)
  then show ?thesis
    by (simp only: round_double_scale [OF assms(1,2)])
qed

lemma is_double_tenth: "is_double tenth"
proof -
  have "round_pos tenth = Finite tenth"
    by (rule round_pos_exact [of "- 55" 3602879701896397])
      (simp_all add: tenth_def power_int_minus)
  moreover have "0 \<le> tenth" by (simp add: tenth_def)
  ultimately show ?thesis by (simp add: is_double_def round_double_def)
qed

text \<open>
  C3, as stated, asks that \<open>get_timeout\<close> is the exact product for every positive factor
  and every attempt number from one on. For the float \<open>0.1\<close> and attempt number 1025
  the power \<open>2 ** 1024\<close> is an int beyond the doubles, and its conversion for the
  product raises \<open>OverflowError\<close>.
\<close>

theorem get_timeout_tenth_overflow:
  "is_double tenth \<and> 0 < tenth \<and> (1::int) \<le> 1025
   \<and> get_timeout (FloatNum (Finite tenth)) 1025 =
       Inl (OverflowError ''int too large to convert to float'')"
  using is_double_tenth get_timeout_float_overflow [of 1025 "Finite tenth"]
  by (simp add: tenth_def)

text \<open>
  C3, amended. For an attempt number of at least one: with a positive int factor \<open>b\<close>,
  \<open>get_timeout\<close> is the int \<open>b * 2 ^ (attempt - 1)\<close>. With a positive float factor \<open>x\<close>
  and an attempt number of at most 1024 it is the float \<open>x * 2 ^ (attempt - 1)\<close>, exact,
  when that product is below \<open>2 ^ 1024\<close>, and \<open>inf\<close> when it is not; from attempt number
  1025 on it raises \<open>OverflowError\<close>. Within these ranges it does not decrease when
  the attempt number grows. It is a function of its two arguments alone.
\<close>

theorem get_timeout_exponential:
  assumes "1 \<le> attempt"
  shows "(0 < b \<longrightarrow>
            get_timeout (IntNum b) attempt = Inr (IntNum (b * 2 ^ nat (attempt - 1)))
            \<and> (\<forall>later\<ge>attempt. \<exists>t t'. get_timeout (IntNum b) attempt = Inr t
                   \<and> get_timeout (IntNum b) later = Inr t' \<and> num_le t t'))
       \<and> (is_double x \<and> 0 < x \<and> attempt \<le> 1024 \<longrightarrow>
            get_timeout (FloatNum (Finite x)) attempt =
              Inr (FloatNum (if x * 2 ^ nat (attempt - 1) < double_limit
                             then Finite (x * 2 ^ nat (attempt - 1)) else PosInf))
            \<and> (\<forall>later. attempt \<le> later \<and> later \<le> 1024 \<longrightarrow>
                  (\<exists>t t'. get_timeout (FloatNum (Finite x)) attempt = Inr t
                     \<and> get_timeout (FloatNum (Finite x)) later = Inr t' \<and> num_le t t')))
       \<and> (1025 \<le> attempt \<longrightarrow>
            get_timeout (FloatNum (Finite x)) attempt =
              Inl (OverflowError ''int too large to convert to float''))"
proof (intro conjI impI)
  assume b: "0 < b"
  show "get_timeout (IntNum b) attempt = Inr (IntNum (b * 2 ^ nat (attempt - 1)))"
    by (rule get_timeout_int [OF assms])
  show "\<forall>later\<ge>attempt. \<exists>t t'. get_timeout (IntNum b) attempt = Inr t
      \<and> get_timeout (IntNum b) later = Inr t' \<and> num_le t t'"
  proof (intro allI impI)
    fix later assume l: "attempt \<le> later"
    then have l1: "1 \<le> later" using assms by simp
    have "nat (attempt - 1) \<le> nat (later - 1)" using l by simp
    then have "(2::int) ^ nat (attempt - 1) \<le> 2 ^ nat (later - 1)"
      by (intro power_increasing) auto
    then have "b * 2 ^ nat (attempt - 1) \<le> b * 2 ^ nat (later - 1)"
      using b by simp
    then show "\<exists>t t'. get_timeout (IntNum b) attempt = Inr t
        \<and> get_timeout (IntNum b) later = Inr t' \<and> num_le t t'"
      by (simp add: get_timeout_int [OF assms] get_timeout_int [OF l1])
  qed
next
  assume a: "is_double x \<and> 0 < x \<and> attempt \<le> 1024"
  then have d: "is_double x" and x: "0 < x" and le: "attempt \<le> 1024" by simp_all
  show "get_timeout (FloatNum (Finite x)) attempt =
      Inr (FloatNum (if x * 2 ^ nat (attempt - 1) < double_limit
                     then Finite (x * 2 ^ nat (attempt - 1)) else PosInf))"
    by (rule get_timeout_float [OF d x assms le])
  show "\<forall>later. attempt \<le> later \<and> later \<le> 1024 \<longrightarrow>
      (\<exists>t t'. get_timeout (FloatNum (Finite x)) attempt = Inr t
         \<and> get_timeout (FloatNum (Finite x)) later = Inr t' \<and> num_le t t')"
  proof (intro allI impI)
    fix later assume l: "attempt \<le> later \<and> later \<le> 1024"
    then have l1: "1 \<le> later" using assms by simp
    have "nat (attempt - 1) \<le> nat (later - 1)" using l by linarith
    then have "(2::rat) ^ nat (attempt - 1) \<le> 2 ^ nat (later - 1)"
      by (intro power_increasing) auto
    then have mono: "x * 2 ^ nat (attempt - 1) \<le> x * 2 ^ nat (later - 1)"
      using x by simp
    have "num_le
        (FloatNum (if x * 2 ^ nat (attempt - 1) < double_limit
                   then Finite (x * 2 ^ nat (attempt - 1)) else PosInf))
        (FloatNum (if x * 2 ^ nat (later - 1) < double_limit
                   then Finite (x * 2 ^ nat (later - 1)) else PosInf))"
      using mono by auto
    then show "\<exists>t t'. get_timeout (FloatNum (Finite x)) attempt = Inr t
        \<and> get_timeout (FloatNum (Finite x)) later = Inr t' \<and> num_le t t'"
      using get_timeout_float [OF d x assms le] get_timeout_float [OF d x l1] l by simp
  qed
next
  assume "1025 \<le> attempt"
  then show "get_timeout (FloatNum (Finite x)) attempt =
      Inl (OverflowError ''int too large to convert to float'')"
    by (rule get_timeout_float_overflow)
qed

theorem get_timeout_exponential_witness:
  "(1::int) \<le> 2 \<and> (0::int) < 5 \<and> is_double tenth \<and> 0 < tenth \<and> (2::int) \<le> 1024
   \<and> get_timeout (IntNum 5) 2 = Inr (IntNum 10)
   \<and> get_timeout (FloatNum (Finite tenth)) 1 = Inr (FloatNum (Finite tenth))
   \<and> get_timeout (FloatNum (Finite tenth)) 2 = Inr (FloatNum (Finite (tenth * 2)))
   \<and> get_timeout (FloatNum (Finite tenth)) 3 = Inr (FloatNum (Finite (tenth * 4)))
   \<and> num_le (FloatNum (Finite (tenth * 2))) (FloatNum (Finite (tenth * 4)))
   \<and> (1025::int) \<le> 1100
   \<and> get_timeout (FloatNum (Finite tenth)) 1100 =
       Inl (OverflowError ''int too large to convert to float'')"
proof -
  have small: "tenth < double_limit" "tenth * 2 < double_limit" "tenth * 4 < double_limit"
    by (simp_all add: tenth_def double_limit_def)
  have pos: "0 < tenth" by (simp add: tenth_def)
  show ?thesis
    using get_timeout_exponential [of 1 5 tenth] get_timeout_exponential [of 2 5 tenth]
      get_timeout_exponential [of 3 5 tenth] get_timeout_exponential [of 1100 5 tenth]
      is_double_tenth small pos
    by simp
qed

section \<open>The retry decorator\<close>

lemma round_double_exact:
  assumes "- 1074 \<le> e" and "e \<le> 971" and "\<bar>m\<bar> < 2 ^ 53" and "q = of_int m * 2 powi e"
  shows "round_double q = Finite q"
proof (cases "0 \<le> m")
  case True
  then have "0 \<le> q" using assms(4) by simp
  moreover have "round_pos q = Finite q"
    by (rule round_pos_exact [of e m]) (use assms True in auto)
  ultimately show ?thesis by (simp add: round_double_def)
next
  case False
  then have "q < 0" using assms(4) by (simp add: mult_neg_pos)
  moreover have "round_pos (- q) = Finite (- q)"
    by (rule round_pos_exact [of e "- m"]) (use assms False in auto)
  ultimately show ?thesis by (simp add: round_double_def)
qed

text \<open>The first delay of the default factor: \<open>5 * 2 ** -1\<close> is the float \<open>2.5\<close>.\<close>

lemma get_timeout_five_zero: "get_timeout (IntNum 5) 0 = Inr (FloatNum (Finite (5 / 2)))"
proof -
  have a: "round_double (of_int (- 1)) = Finite (of_int (- 1))"
    by (rule round_double_exact [of 0 "- 1"]) simp_all
  have b: "round_double (2 powi (- 1)) = Finite (2 powi (- 1))"
    by (rule round_double_exact [of "- 1" 1]) simp_all
  have c: "round_double (of_int 5) = Finite (of_int 5)"
    by (rule round_double_exact [of 0 5]) simp_all
  have d: "round_double (5 / 2) = Finite (5 / 2)"
    by (rule round_double_exact [of "- 1" 5]) (simp_all add: power_int_minus)
  have p: "py_pow2 (- 1) = Inr (FloatNum (Finite (1 / 2)))"
    using a b by (simp add: py_pow2_def float_of_int_def power_int_minus)
  show ?thesis
    using c d by (simp add: get_timeout_def p float_of_int_def)
qed

lemma count_calls_simps [simp]:
  "count_calls [] = 0"
  "count_calls (Call_function # ev) = Suc (count_calls ev)"
  "count_calls (Call_method name a # ev) = count_calls ev"
  "count_calls (Sleep s # ev) = count_calls ev"
  "count_calls (ev @ ev') = count_calls ev + count_calls ev'"
  by (simp_all add: count_calls_def)

lemma count_calls_on_attempt_failure [simp]:
  "count_calls (on_attempt_failure p e args) = 0"
  by (simp add: on_attempt_failure_def split: option.splits)

lemma count_calls_on_exceeded [simp]: "count_calls (on_exceeded p) = 0"
  by (simp add: on_exceeded_def split: option.splits)

text \<open>
  How often an operation that fails on every call is invoked, when every delay can be
  computed: once, and once more for every second value of the counter below
  \<open>num_retries\<close>, because each retry advances the counter by two.
\<close>

lemma wrapper_call_count:
  assumes "\<And>k. f k = Raise (err k)"
    and "\<And>n. num_attempts \<le> n \<Longrightarrow> get_timeout (backoff_factor p) n = Inr (delay n)"
  shows "count_calls (fst (wrapper p f args k num_attempts)) =
           (if num_attempts < num_retries p
            then 1 + nat ((num_retries p - num_attempts + 1) div 2) else 1)"
  using assms
proof (induction p f args k num_attempts rule: wrapper.induct)
  case (1 p f args k num_attempts)
  have fk: "f k = Raise (err k)" by (rule "1.prems")
  have gt: "get_timeout (backoff_factor p) num_attempts = Inr (delay num_attempts)"
    by (rule "1.prems") simp
  show ?case
  proof (cases "num_attempts < num_retries p")
    case True
    have ih: "count_calls (fst (wrapper p f (subst_args (err k) args) (Suc k) (num_attempts + 1 + 1))) =
       (if num_attempts + 1 + 1 < num_retries p
        then 1 + nat ((num_retries p - (num_attempts + 1 + 1) + 1) div 2) else 1)"
    proof (rule "1.IH" [OF fk gt True])
      show "\<And>k. f k = Raise (err k)" by (rule "1.prems")
      show "\<And>n. num_attempts + 1 + 1 \<le> n \<Longrightarrow> get_timeout (backoff_factor p) n = Inr (delay n)"
        by (rule "1.prems") simp
    qed
    have step: "count_calls (fst (wrapper p f args k num_attempts)) =
        Suc (count_calls (fst (wrapper p f (subst_args (err k) args) (Suc k) (num_attempts + 1 + 1))))"
      by (subst wrapper.simps) (simp add: fk gt True split: prod.splits)
    show ?thesis
    proof (cases "num_attempts + 1 + 1 < num_retries p")
      case True
      then have "nat ((num_retries p - num_attempts + 1) div 2) =
          Suc (nat ((num_retries p - (num_attempts + 1 + 1) + 1) div 2))"
        by linarith
      with True ih step \<open>num_attempts < num_retries p\<close> show ?thesis by simp
    next
      case False
      with \<open>num_attempts < num_retries p\<close>
      have "nat ((num_retries p - num_attempts + 1) div 2) = 1"
        by linarith
      with False ih step \<open>num_attempts < num_retries p\<close> show ?thesis by simp
    qed
  next
    case False
    then show ?thesis
      by (subst wrapper.simps) (simp add: fk gt)
  qed
qed

text \<open>
  C1. For an operation that fails on every attempt the wrapper is to invoke it
  \<open>num_retries + 1\<close> times and then call the exhaustion callback. With \<open>num_retries = 3\<close>
  the wrapper invokes it three times, at the counter values 0, 2 and 4, and calls the
  exhaustion callback after the second retry.
\<close>

theorem wrapper_three_retries_trace:
  "fst (wrapper three_retries always_down [] 0 0) =
     [Call_function, Sleep (FloatNum (Finite (5 / 2))),
      Call_function, Sleep (IntNum 10),
      Call_function, Sleep (IntNum 40),
      Call_method ''on_exceeded'' []]
   \<and> count_calls (fst (wrapper three_retries always_down [] 0 0)) = 3
   \<and> num_retries three_retries + 1 = 4"
proof -
  have g2: "get_timeout (IntNum 5) 2 = Inr (IntNum 10)"
    by (simp add: get_timeout_int)
  have g4: "get_timeout (IntNum 5) 4 = Inr (IntNum 40)"
    by (simp add: get_timeout_int)
  have tr: "fst (wrapper three_retries always_down [] 0 0) =
     [Call_function, Sleep (FloatNum (Finite (5 / 2))),
      Call_function, Sleep (IntNum 10),
      Call_function, Sleep (IntNum 40),
      Call_method ''on_exceeded'' []]"
    by (simp add: wrapper.simps three_retries_def retry_defaults_def always_down_def
        on_attempt_failure_def on_exceeded_def subst_args_def get_timeout_five_zero g2 g4)
  show ?thesis
    unfolding tr by (simp add: three_retries_def retry_defaults_def)
qed



section \<open>emit_mq_message\<close>

lemma emit_valid:
  assumes "heap w r = PyDict d" and "d \<noteq> []"
  shows "emit_mq_message w conn q r exchange =
    (Inr (uuid4_hex w (uuid4_calls w)),
     w\<lparr> uuid4_calls := Suc (uuid4_calls w),
        heap := (heap w)(r := PyDict (AList.update ''message_id'' (PyStr (uuid4_hex w (uuid4_calls w))) d)),
        broker := broker w @
          [(conn, Channel),
           (conn, Basic_publish (case exchange of None \<Rightarrow> [] | Some s \<Rightarrow> s) q
              (Dict_to_b64 (AList.update ''message_id'' (PyStr (uuid4_hex w (uuid4_calls w))) d)) ''1000''),
           (conn, Channel_close)] \<rparr>)"
  using assms by (simp add: emit_mq_message_def create_unique_id_def Let_def)

text \<open>
  Every request that is an empty dictionary or no dictionary is refused with an
  exception, and the world (the request, the generator, the broker) stays as it was.
\<close>

lemma emit_invalid_no_interaction:
  assumes "heap w r = v" and "\<not> isinstance_dict v \<or> v = PyDict []"
  shows "snd (emit_mq_message w conn q r exchange) = w
       \<and> (\<exists>e. fst (emit_mq_message w conn q r exchange) = Inl e)"
  using assms by (cases v) (auto simp: emit_mq_message_def Let_def split: sum.splits)

text \<open>
  C4. A request that is not a dictionary is to be refused with \<open>ValueError\<close>. For the
  request \<open>5\<close> the condition calls \<open>len(5)\<close> before it looks at the type, and the call
  leaves with \<open>TypeError\<close>; the world stays as it was.
\<close>

theorem emit_mq_message_int_request:
  "emit_mq_message (world_with (PyInt 5)) 0 ''test'' 0 None =
     (Inl (TypeError ''object of type 'int' has no len()''), world_with (PyInt 5))"
  by (simp add: emit_mq_message_def world_with_def)

text \<open>
  C7. For a request that is a non-empty dictionary, \<open>emit_mq_message\<close> draws a new
  identifier from the generator, stores it in the request under \<open>message_id\<close>, opens a
  channel on the connection, publishes the encoded request with expiration \<open>1000\<close>
  (milliseconds), closes the channel, and returns the identifier; the published request
  carries the returned identifier as its \<open>message_id\<close>.
\<close>

theorem emit_mq_message_returns_published_id:
  assumes "heap w r = PyDict d" and "d \<noteq> []"
  shows "fst (emit_mq_message w conn q r exchange) = Inr (uuid4_hex w (uuid4_calls w))
       \<and> uuid4_calls (snd (emit_mq_message w conn q r exchange)) = Suc (uuid4_calls w)
       \<and> (\<exists>d'. map_of d' ''message_id'' = Some (PyStr (uuid4_hex w (uuid4_calls w)))
              \<and> heap (snd (emit_mq_message w conn q r exchange)) r = PyDict d'
              \<and> broker (snd (emit_mq_message w conn q r exchange)) =
                  broker w @
                  [(conn, Channel),
                   (conn, Basic_publish (case exchange of None \<Rightarrow> [] | Some s \<Rightarrow> s) q
                            (Dict_to_b64 d') ''1000''),
                   (conn, Channel_close)])"
proof -
  let ?d = "AList.update ''message_id'' (PyStr (uuid4_hex w (uuid4_calls w))) d"
  have "map_of ?d ''message_id'' = Some (PyStr (uuid4_hex w (uuid4_calls w)))"
    by (simp add: update_conv')
  then show ?thesis
    unfolding emit_valid [OF assms] by auto
qed

theorem emit_mq_message_returns_published_id_witness:
  "heap (world_with (PyDict [(''data'', PyStr ''Hello!'')])) 0 = PyDict [(''data'', PyStr ''Hello!'')]
   \<and> [(''data'', PyStr ''Hello!'')] \<noteq> []
   \<and> fst (emit_mq_message (world_with (PyDict [(''data'', PyStr ''Hello!'')])) 7 ''test'' 0 (Some ''''))
       = Inr ''00000000000000000000000000000000''
   \<and> broker (snd (emit_mq_message (world_with (PyDict [(''data'', PyStr ''Hello!'')])) 7 ''test'' 0 (Some '''')))
       = [(7, Channel),
          (7, Basic_publish '''' ''test''
                (Dict_to_b64 [(''data'', PyStr ''Hello!''),
                              (''message_id'', PyStr ''00000000000000000000000000000000'')])
                ''1000''),
          (7, Channel_close)]"
proof -
  have h1: "heap (world_with (PyDict [(''data'', PyStr ''Hello!'')])) 0 = PyDict [(''data'', PyStr ''Hello!'')]"
    by (simp add: world_with_def)
  have h2: "[(''data'', PyStr ''Hello!'')] \<noteq> []" by simp
  have id0: "uuid_demo 0 = ''00000000000000000000000000000000''"
    by (simp add: uuid_demo_def)
  note ev = emit_valid [OF h1 h2, of 7 "''test''" "Some ''''"]
  from emit_mq_message_returns_published_id [OF h1 h2, of 7 "''test''" "Some ''''"]
  show ?thesis
    unfolding ev by (simp add: world_with_def id0)
qed

text \<open>
  C9. For a request that is a non-empty dictionary, \<open>emit_mq_message\<close> changes the
  caller's dictionary itself: afterwards the object behind the caller's reference has
  \<open>message_id\<close> set to the returned identifier, every other key has the value it had,
  and no other object has changed.
\<close>

theorem emit_mq_message_mutates_request:
  assumes "heap w r = PyDict d" and "d \<noteq> []"
  shows "\<exists>d'. heap (snd (emit_mq_message w conn q r exchange)) r = PyDict d'
            \<and> fst (emit_mq_message w conn q r exchange) = Inr (uuid4_hex w (uuid4_calls w))
            \<and> map_of d' ''message_id'' = Some (PyStr (uuid4_hex w (uuid4_calls w)))
            \<and> (\<forall>k. k \<noteq> ''message_id'' \<longrightarrow> map_of d' k = map_of d k)
            \<and> (\<forall>r'. r' \<noteq> r \<longrightarrow> heap (snd (emit_mq_message w conn q r exchange)) r' = heap w r')"
  unfolding emit_valid [OF assms] by (auto simp: update_conv')

theorem emit_mq_message_mutates_request_witness:
  "heap (world_with (PyDict [(''message_id'', PyStr ''old''), (''data'', PyStr ''Hello!'')])) 0
      = PyDict [(''message_id'', PyStr ''old''), (''data'', PyStr ''Hello!'')]
   \<and> [(''message_id'', PyStr ''old''), (''data'', PyStr ''Hello!'')] \<noteq> []
   \<and> heap (snd (emit_mq_message
        (world_with (PyDict [(''message_id'', PyStr ''old''), (''data'', PyStr ''Hello!'')]))
        7 ''test'' 0 None)) 0
      = PyDict [(''message_id'', PyStr ''00000000000000000000000000000000''),
                (''data'', PyStr ''Hello!'')]"
proof -
  let ?d = "[(''message_id'', PyStr ''old''), (''data'', PyStr ''Hello!'')]"
  have h1: "heap (world_with (PyDict ?d)) 0 = PyDict ?d"
    by (simp add: world_with_def)
  have h2: "?d \<noteq> []" by simp
  have id0: "uuid_demo 0 = ''00000000000000000000000000000000''"
    by (simp add: uuid_demo_def)
  note ev = emit_valid [OF h1 h2, of 7 "''test''" None]
  from emit_mq_message_mutates_request [OF h1 h2, of 7 "''test''" None]
  show ?thesis
    unfolding ev by (simp add: world_with_def id0)
qed


section \<open>ConsumerThread\<close>

text \<open>
  C5. When the delivery loop raises an exception other than \<open>ChannelClosed\<close>, \<open>run\<close>
  logs it, calls the worker's error handler once, with the worker and the exception,
  and ends without an exception leaving it. When the loop raises \<open>ChannelClosed\<close>,
  \<open>run\<close> ends the same way without calling the error handler.
\<close>

theorem run_forwards_exception_once:
  "(start_consuming_raises env = Some e \<and> e \<noteq> ChannelClosed \<longrightarrow>
      run env t = (None, [Start_consuming, Log_error e, Error_func (error_func t) t e])
      \<and> filter is_error_func (snd (run env t)) = [Error_func (error_func t) t e])
   \<and> (start_consuming_raises env = Some ChannelClosed \<longrightarrow>
      fst (run env t) = None \<and> filter is_error_func (snd (run env t)) = [])"
  by (simp add: run_def)

theorem run_forwards_exception_once_witness:
  "start_consuming_raises callback_raises = Some (Exception ''Exception to Handle'')
   \<and> Exception ''Exception to Handle'' \<noteq> ChannelClosed
   \<and> run callback_raises running_worker =
       (None, [Start_consuming, Log_error (Exception ''Exception to Handle''),
               Error_func ''handle_error'' running_worker (Exception ''Exception to Handle'')])
   \<and> start_consuming_raises closed_by_broker = Some ChannelClosed
   \<and> fst (run closed_by_broker running_worker) = None
   \<and> filter is_error_func (snd (run closed_by_broker running_worker)) = []"
proof -
  have h1: "start_consuming_raises callback_raises = Some (Exception ''Exception to Handle'')"
    by (simp add: callback_raises_def quiet_def)
  have h2: "start_consuming_raises closed_by_broker = Some ChannelClosed"
    by (simp add: closed_by_broker_def quiet_def)
  have h3: "error_func running_worker = ''handle_error''"
    by (simp add: running_worker_def ConsumerThread_init_def)
  show ?thesis
    using run_forwards_exception_once [of callback_raises "Exception ''Exception to Handle''" running_worker]
      run_forwards_exception_once [of closed_by_broker ChannelClosed running_worker]
      h1 h2 h3
    by simp
qed

lemma join_try_started [simp]: "started (fst (snd (join_try env t))) = started t"
  by (simp add: join_try_def close_channel_def close_connection_def split: option.splits)

lemma join_started [simp]: "started (fst (snd (join env t))) = started t"
proof -
  have "fst (snd (join env t)) = fst (snd (join_try env t))"
    by (simp add: join_def split: prod.splits)
  then show ?thesis by simp
qed

lemma join_result:
  "fst (join env t) =
     (if started t then Inr () else Inl (RuntimeError ''cannot join thread before it is started''))"
proof -
  obtain r t' ev where jt: "join_try env t = (r, t', ev)"
    by (cases "join_try env t") auto
  have "started t' = started t"
    using join_try_started [of env t] jt by simp
  then show ?thesis by (simp add: join_def jt)
qed

lemma join_trace: "snd (snd (join env t)) = guarded_block (shutdown_steps env t) @ [Thread_join]"
  by (simp add: join_def join_try_def close_channel_def close_connection_def shutdown_steps_def
      split: option.splits prod.splits)

lemma join_Thread_join: "Thread_join \<in> set (snd (snd (join env t)))"
  by (simp add: join_trace)

text \<open>
  C6, as stated, asks that a failure of one step of \<open>join\<close> does not prevent the next.
  When \<open>stop_consuming\<close> raises on a worker whose channel and connection are open,
  neither is closed: the exception is logged and only the thread is joined.
\<close>

theorem join_stream_lost_skips_close:
  "stop_consuming_raises stream_lost = Some (Exception ''Stream connection lost'')
   \<and> channel_is_open running_worker \<and> connection_is_open running_worker
   \<and> snd (snd (join stream_lost running_worker)) =
       [Stop_consuming, Log_error (Exception ''Stream connection lost''), Thread_join]
   \<and> Channel_close \<notin> set (snd (snd (join stream_lost running_worker)))
   \<and> Connection_close \<notin> set (snd (snd (join stream_lost running_worker)))
   \<and> channel_is_open (fst (snd (join stream_lost running_worker)))
   \<and> connection_is_open (fst (snd (join stream_lost running_worker)))"
  by (simp add: join_def join_try_def stream_lost_def quiet_def running_worker_def
      ConsumerThread_init_def)

text \<open>
  C6, amended. \<open>join\<close> asks the broker to stop consuming, closes the channel if it is
  open and closes the connection if it is open, as one guarded block: the first step
  that raises has its exception logged and swallowed, and the steps after it are
  skipped. The thread is joined after the block in every case, and \<open>join\<close> raises only
  what \<open>Thread.join\<close> raises.
\<close>

theorem join_one_guarded_block:
  "snd (snd (join env t)) = guarded_block (shutdown_steps env t) @ [Thread_join]
   \<and> fst (join env t) =
       (if started t then Inr () else Inl (RuntimeError ''cannot join thread before it is started''))"
  using join_trace [of env t] join_result [of env t] by simp

section \<open>stop_consumers\<close>

lemma stop_loop_first_failure:
  assumes "\<forall>m\<in>set pre. \<forall>u. map_of cs m = Some u \<longrightarrow> started u"
    and "map_of cs n = Some t" and "\<not> started t"
  shows "fst (stop_loop env cs (pre @ n # post)) =
           Inl (ChildProcessError (RuntimeError ''cannot join thread before it is started''))
       \<and> (n, Thread_join) \<in> set (snd (snd (stop_loop env cs (pre @ n # post))))
       \<and> (\<forall>m\<in>set pre. m \<in> dom (map_of cs)
             \<longrightarrow> (m, Thread_join) \<in> set (snd (snd (stop_loop env cs (pre @ n # post)))))
       \<and> fst ` set (snd (snd (stop_loop env cs (pre @ n # post)))) \<subseteq> insert n (set pre)"
  using assms
proof (induction pre arbitrary: cs)
  case Nil
  obtain res t' ev where j: "join (env n) t = (res, t', ev)"
    by (cases "join (env n) t") auto
  have res: "res = Inl (RuntimeError ''cannot join thread before it is started'')"
    using join_result [of "env n" t] j Nil.prems by simp
  have tj: "Thread_join \<in> set ev" using join_Thread_join [of "env n" t] j by simp
  show ?case using Nil.prems j res tj by auto
next
  case (Cons name pre)
  show ?case
  proof (cases "map_of cs name")
    case None
    have "\<forall>m\<in>set pre. \<forall>u. map_of cs m = Some u \<longrightarrow> started u"
      using Cons.prems by simp
    from Cons.IH [OF this Cons.prems(2,3)] None show ?thesis by auto
  next
    case (Some u)
    then have st: "started u" using Cons.prems by simp
    then have ne: "n \<noteq> name" using Some Cons.prems by auto
    obtain res u' ev where j: "join (env name) u = (res, u', ev)"
      by (cases "join (env name) u") auto
    have res: "res = Inr ()" using join_result [of "env name" u] j st by simp
    have st': "started u'" using join_started [of "env name" u] j st by simp
    have tj: "Thread_join \<in> set ev" using join_Thread_join [of "env name" u] j by simp
    let ?cs = "AList.update name u' cs"
    have p1: "\<forall>m\<in>set pre. \<forall>v. map_of ?cs m = Some v \<longrightarrow> started v"
      using Cons.prems st' by (auto simp: update_conv')
    have p2: "map_of ?cs n = Some t" using ne Cons.prems by (simp add: update_conv')
    note ih = Cons.IH [OF p1 p2 Cons.prems(3)]
    obtain r2 cs2 ev2 where sl: "stop_loop env ?cs (pre @ n # post) = (r2, cs2, ev2)"
      by (cases "stop_loop env ?cs (pre @ n # post)") auto
    have eq: "stop_loop env cs ((name # pre) @ n # post) = (r2, cs2, map (Pair name) ev @ ev2)"
      using Some j res sl by simp
    have c3: "\<forall>m\<in>set (name # pre). m \<in> dom (map_of cs)
        \<longrightarrow> (m, Thread_join) \<in> set (map (Pair name) ev @ ev2)"
    proof (intro ballI impI)
      fix m assume m: "m \<in> set (name # pre)" and d: "m \<in> dom (map_of cs)"
      show "(m, Thread_join) \<in> set (map (Pair name) ev @ ev2)"
      proof (cases "m = name")
        case True
        then show ?thesis using tj by auto
      next
        case False
        then have "m \<in> set pre" using m by simp
        moreover have "m \<in> dom (map_of ?cs)" using d by (auto simp: update_conv')
        ultimately have "(m, Thread_join) \<in> set ev2" using ih sl by auto
        then show ?thesis by simp
      qed
    qed
    have c4: "fst ` set (map (Pair name) ev @ ev2) \<subseteq> insert n (set (name # pre))"
      using ih sl by auto
    show ?thesis unfolding eq using ih sl c3 c4 by simp
  qed
qed

lemma consumers_second_not_started:
  "consumers second_not_started =
     [(''test1'',
       (fst (ConsumerThread_init test_params ''test'' ''callback_func_1'' default_error_handler False))
          \<lparr> daemon := True, started := True \<rparr>),
      (''test2'',
       fst (ConsumerThread_init test_params ''test1'' ''callback_func_2'' default_error_handler False)),
      (''error'', running_worker)]"
  by (simp add: second_not_started_def run_consumers_def test_registrations_def
      registration_of_def register_consumer_def get_connection_params_def mq_credentials_def
      test_connector_def ConsumerThread_init_def default_error_handler_def test_params_def
      running_worker_def)

text \<open>
  C2, as stated, asks that every remaining named worker is shut down before the error
  is raised. With three workers of which the second was never started,
  \<open>stop_consumers\<close> raises at the second and nothing is done for the third, which is
  running.
\<close>

theorem stop_consumers_skips_remaining:
  "map fst (consumers second_not_started) = [''test1'', ''test2'', ''error'']
   \<and> fst (stop_consumers every_worker_quiet second_not_started []) =
       Inl (ChildProcessError (RuntimeError ''cannot join thread before it is started''))
   \<and> snd (snd (stop_consumers every_worker_quiet second_not_started [])) =
       [(''test1'', Stop_consuming), (''test1'', Channel_close),
        (''test1'', Connection_close), (''test1'', Thread_join),
        (''test2'', Stop_consuming), (''test2'', Channel_close),
        (''test2'', Connection_close), (''test2'', Thread_join)]
   \<and> ''error'' \<notin> fst ` set (snd (snd (stop_consumers every_worker_quiet second_not_started [])))"
proof -
  have tr: "stop_consumers every_worker_quiet second_not_started [] =
      (Inl (ChildProcessError (RuntimeError ''cannot join thread before it is started'')),
       fst (snd (stop_consumers every_worker_quiet second_not_started [])),
       [(''test1'', Stop_consuming), (''test1'', Channel_close),
        (''test1'', Connection_close), (''test1'', Thread_join),
        (''test2'', Stop_consuming), (''test2'', Channel_close),
        (''test2'', Connection_close), (''test2'', Thread_join)])"
    by (simp add: stop_consumers_def consumers_second_not_started every_worker_quiet_def
        join_def join_try_def close_channel_def close_connection_def quiet_def
        ConsumerThread_init_def running_worker_def)
  show ?thesis
    by (subst tr, subst tr, subst tr) (simp add: consumers_second_not_started)
qed

text \<open>
  C2, amended. When stopping a named worker raises, \<open>stop_consumers\<close> raises at once a
  single \<open>ChildProcessError\<close> that wraps the cause. The workers named before it have
  been stopped and joined; nothing is done for the workers named after it.
\<close>

theorem stop_consumers_raises_at_first_failure:
  assumes "(if names = [] then map fst (consumers c) else names) = pre @ n # post"
    and "\<forall>m\<in>set pre. \<forall>u. map_of (consumers c) m = Some u \<longrightarrow> fst (join (env m) u) = Inr ()"
    and "map_of (consumers c) n = Some t"
    and "fst (join (env n) t) = Inl e"
  shows "fst (stop_consumers env c names) = Inl (ChildProcessError e)
       \<and> (n, Thread_join) \<in> set (snd (snd (stop_consumers env c names)))
       \<and> (\<forall>m\<in>set pre. m \<in> dom (map_of (consumers c))
             \<longrightarrow> (m, Thread_join) \<in> set (snd (snd (stop_consumers env c names))))
       \<and> fst ` set (snd (snd (stop_consumers env c names))) \<subseteq> insert n (set pre)"
proof -
  have ns: "\<not> started t" and e: "e = RuntimeError ''cannot join thread before it is started''"
    using assms(4) join_result [of "env n" t] by (auto split: if_splits)
  have pre: "\<forall>m\<in>set pre. \<forall>u. map_of (consumers c) m = Some u \<longrightarrow> started u"
  proof (intro ballI allI impI)
    fix m u assume "m \<in> set pre" and "map_of (consumers c) m = Some u"
    then have "fst (join (env m) u) = Inr ()" using assms(2) by blast
    then show "started u" using join_result [of "env m" u] by (auto split: if_splits)
  qed
  note sl = stop_loop_first_failure [OF pre assms(3) ns, of env post]
  obtain r cs ev where s: "stop_loop env (consumers c) (pre @ n # post) = (r, cs, ev)"
    by (cases "stop_loop env (consumers c) (pre @ n # post)") auto
  have "stop_consumers env c names = (r, c\<lparr>consumers := cs\<rparr>, ev)"
    using assms(1) s by (simp add: stop_consumers_def)
  then show ?thesis using sl s e by simp
qed

theorem stop_consumers_raises_at_first_failure_witness:
  "(if [] = ([]::string list) then map fst (consumers second_not_started) else []) =
      [''test1''] @ ''test2'' # [''error'']
   \<and> map_of (consumers second_not_started) ''test2'' =
       Some (fst (ConsumerThread_init test_params ''test1'' ''callback_func_2'' default_error_handler False))
   \<and> fst (join (every_worker_quiet ''test2'')
         (fst (ConsumerThread_init test_params ''test1'' ''callback_func_2'' default_error_handler False))) =
       Inl (RuntimeError ''cannot join thread before it is started'')
   \<and> fst (stop_consumers every_worker_quiet second_not_started []) =
       Inl (ChildProcessError (RuntimeError ''cannot join thread before it is started''))
   \<and> (''test2'', Thread_join) \<in> set (snd (snd (stop_consumers every_worker_quiet second_not_started [])))
   \<and> (''test1'', Thread_join) \<in> set (snd (snd (stop_consumers every_worker_quiet second_not_started [])))
   \<and> fst ` set (snd (snd (stop_consumers every_worker_quiet second_not_started []))) \<subseteq>
       {''test2'', ''test1''}"
proof -
  let ?w2 = "fst (ConsumerThread_init test_params ''test1'' ''callback_func_2'' default_error_handler False)"
  have h1: "(if [] = ([]::string list) then map fst (consumers second_not_started) else []) =
      [''test1''] @ ''test2'' # [''error'']"
    by (simp add: consumers_second_not_started)
  have h2: "\<forall>m\<in>set [''test1'']. \<forall>u. map_of (consumers second_not_started) m = Some u
      \<longrightarrow> fst (join (every_worker_quiet m) u) = Inr ()"
    by (simp add: consumers_second_not_started join_result)
  have h3: "map_of (consumers second_not_started) ''test2'' = Some ?w2"
    by (simp add: consumers_second_not_started)
  have h4: "fst (join (every_worker_quiet ''test2'') ?w2) =
      Inl (RuntimeError ''cannot join thread before it is started'')"
    by (simp add: join_result ConsumerThread_init_def)
  have d: "''test1'' \<in> dom (map_of (consumers second_not_started))"
    by (simp add: consumers_second_not_started)
  from stop_consumers_raises_at_first_failure [OF h1 h2 h3 h4] h1 h3 h4 d
  show ?thesis by simp
qed

section \<open>register_consumer\<close>

lemma get_connection_params_cong:
  assumes "config c' = config c" and "service_name c' = service_name c"
  shows "get_connection_params py_int c' v = get_connection_params py_int c v"
  unfolding get_connection_params_def mq_credentials_def assms by (rule refl)

lemma registered_worker_cong:
  assumes "config c' = config c" and "service_name c' = service_name c"
  shows "registered_worker py_int c' r = registered_worker py_int c r"
  by (simp add: registered_worker_def get_connection_params_cong [OF assms])

lemma register_consumer_ok:
  assumes "registered_worker py_int c r = Some w"
  shows "register_consumer py_int c (reg_name r) (reg_vhost r) (reg_queue r)
           (reg_callback r) (reg_on_error r) (reg_auto_ack r) =
         (Inr (), c\<lparr>consumers := AList.update (reg_name r) w (consumers c)\<rparr>,
          snd (ConsumerThread_init (projr (get_connection_params py_int c (reg_vhost r)))
                 (reg_queue r) (reg_callback r)
                 (case reg_on_error r of None \<Rightarrow> default_error_handler | Some h \<Rightarrow> h)
                 (reg_auto_ack r)))"
  using assms
  by (auto simp: registered_worker_def register_consumer_def Let_def
      split: sum.splits prod.splits)

lemma find_append_last:
  "find P (xs @ ys) = (case find P xs of None \<Rightarrow> find P ys | Some x \<Rightarrow> Some x)"
  by (induction xs) auto

lemma register_all_registry:
  assumes "\<forall>r\<in>set rs. registered_worker py_int c r \<noteq> None"
  shows "fst (register_all py_int c rs) = map (\<lambda>r. Inr ()) rs
       \<and> config (snd (register_all py_int c rs)) = config c
       \<and> service_name (snd (register_all py_int c rs)) = service_name c
       \<and> (distinct (map fst (consumers c))
             \<longrightarrow> distinct (map fst (consumers (snd (register_all py_int c rs)))))
       \<and> map_of (consumers (snd (register_all py_int c rs))) name =
           (case find (\<lambda>r. reg_name r = name) (rev rs) of
              None \<Rightarrow> map_of (consumers c) name
            | Some r \<Rightarrow> registered_worker py_int c r)"
  using assms
proof (induction rs arbitrary: c)
  case Nil
  then show ?case by simp
next
  case (Cons r rs)
  obtain w where w: "registered_worker py_int c r = Some w"
    using Cons.prems by auto
  let ?c1 = "c\<lparr>consumers := AList.update (reg_name r) w (consumers c)\<rparr>"
  have cong: "\<And>x. registered_worker py_int ?c1 x = registered_worker py_int c x"
    by (rule registered_worker_cong) simp_all
  have pre: "\<forall>x\<in>set rs. registered_worker py_int ?c1 x \<noteq> None"
    using Cons.prems cong by simp
  note ih = Cons.IH [OF pre]
  obtain ress c2 where ra: "register_all py_int ?c1 rs = (ress, c2)"
    by (cases "register_all py_int ?c1 rs") auto
  have eq: "register_all py_int c (r # rs) = (Inr () # ress, c2)"
    using register_consumer_ok [OF w] ra by simp
  have m: "map_of (consumers c2) name =
      (case find (\<lambda>r. reg_name r = name) (rev rs) of
         None \<Rightarrow> map_of (consumers ?c1) name
       | Some x \<Rightarrow> registered_worker py_int c x)"
    using ih ra cong by (auto split: option.splits)
  have m': "map_of (consumers c2) name =
      (case find (\<lambda>r. reg_name r = name) (rev (r # rs)) of
         None \<Rightarrow> map_of (consumers c) name
       | Some x \<Rightarrow> registered_worker py_int c x)"
    unfolding m by (simp add: find_append_last update_conv' w split: option.splits)
  have d: "distinct (map fst (consumers c)) \<longrightarrow> distinct (map fst (consumers c2))"
    using ih ra by (simp add: distinct_update)
  show ?case unfolding eq using ih ra m' d by simp
qed

text \<open>
  C8. Registrations whose connection parameters can be built raise nothing, whether or
  not their name is already in the registry. After any sequence of them the registry,
  if it had one entry per name before, has one entry per name; its names are the names
  it had and the names registered; and a registered name holds the worker of the last
  registration under that name, which replaces whatever the name held before.
\<close>

theorem register_consumer_replaces:
  assumes "\<forall>r\<in>set rs. registered_worker py_int c r \<noteq> None"
    and "distinct (map fst (consumers c))"
  shows "fst (register_all py_int c rs) = map (\<lambda>r. Inr ()) rs
       \<and> distinct (map fst (consumers (snd (register_all py_int c rs))))
       \<and> set (map fst (consumers (snd (register_all py_int c rs)))) =
           set (map fst (consumers c)) \<union> set (map reg_name rs)
       \<and> (\<forall>name. map_of (consumers (snd (register_all py_int c rs))) name =
             (case find (\<lambda>r. reg_name r = name) (rev rs) of
                None \<Rightarrow> map_of (consumers c) name
              | Some r \<Rightarrow> registered_worker py_int c r))"
proof -
  let ?cs = "consumers (snd (register_all py_int c rs))"
  have m: "\<And>name. map_of ?cs name =
      (case find (\<lambda>r. reg_name r = name) (rev rs) of
         None \<Rightarrow> map_of (consumers c) name
       | Some r \<Rightarrow> registered_worker py_int c r)"
    using register_all_registry [OF assms(1)] by blast
  have keys: "set (map fst ?cs) = set (map fst (consumers c)) \<union> set (map reg_name rs)"
  proof (rule set_eqI)
    fix name
    have "name \<in> set (map fst ?cs) \<longleftrightarrow> map_of ?cs name \<noteq> None"
      by (simp add: map_of_eq_None_iff)
    also have "\<dots> \<longleftrightarrow> name \<in> set (map fst (consumers c)) \<or> name \<in> set (map reg_name rs)"
    proof (cases "find (\<lambda>r. reg_name r = name) (rev rs)")
      case None
      then have "name \<notin> set (map reg_name rs)"
        by (auto simp: find_None_iff)
      then show ?thesis using None by (simp add: m map_of_eq_None_iff)
    next
      case (Some r)
      then have r: "r \<in> set rs" and n: "reg_name r = name"
        using find_Some_mem [of "\<lambda>r. reg_name r = name" "rev rs" r] by auto
      then have "registered_worker py_int c r \<noteq> None" using assms(1) by blast
      moreover have "name \<in> set (map reg_name rs)" using r n by force
      ultimately show ?thesis using Some by (simp add: m)
    qed
    finally show "name \<in> set (map fst ?cs)
        \<longleftrightarrow> name \<in> set (map fst (consumers c)) \<union> set (map reg_name rs)"
      by simp
  qed
  show ?thesis
    using register_all_registry [OF assms(1)] assms(2) keys m by simp
qed

theorem register_consumer_replaces_witness:
  "registered_worker int_of_pyval test_connector (registration_of ''test1'' ''test3'' ''callback_func_3'')
     = Some (fst (ConsumerThread_init test_params ''test3'' ''callback_func_3'' default_error_handler False))
   \<and> distinct (map fst (consumers test_connector))
   \<and> fst (register_all int_of_pyval test_connector
          (test_registrations @ [registration_of ''test1'' ''test3'' ''callback_func_3'']))
       = [Inr (), Inr (), Inr (), Inr ()]
   \<and> map fst (consumers (snd (register_all int_of_pyval test_connector
          (test_registrations @ [registration_of ''test1'' ''test3'' ''callback_func_3'']))))
       = [''test1'', ''test2'', ''error'']
   \<and> map_of (consumers (snd (register_all int_of_pyval test_connector
          (test_registrations @ [registration_of ''test1'' ''test3'' ''callback_func_3''])))) ''test1''
       = Some (fst (ConsumerThread_init test_params ''test3'' ''callback_func_3'' default_error_handler False))"
proof -
  let ?rs = "test_registrations @ [registration_of ''test1'' ''test3'' ''callback_func_3'']"
  have gcp: "\<And>v. get_connection_params int_of_pyval test_connector v =
      Inr (test_params\<lparr>virtual_host := v\<rparr>)"
    by (simp add: get_connection_params_def mq_credentials_def test_connector_def test_params_def)
  have h1: "\<forall>r\<in>set ?rs. registered_worker int_of_pyval test_connector r \<noteq> None"
    by (simp add: registered_worker_def gcp)
  have h2: "distinct (map fst (consumers test_connector))"
    by (simp add: test_connector_def)
  have w: "registered_worker int_of_pyval test_connector
      (registration_of ''test1'' ''test3'' ''callback_func_3'')
     = Some (fst (ConsumerThread_init test_params ''test3'' ''callback_func_3'' default_error_handler False))"
    by (simp add: registered_worker_def gcp registration_of_def test_params_def)
  have ks: "map fst (consumers (snd (register_all int_of_pyval test_connector ?rs)))
       = [''test1'', ''test2'', ''error'']"
    by (simp add: test_registrations_def registration_of_def register_consumer_def
        get_connection_params_def mq_credentials_def ConsumerThread_init_def test_connector_def)
  from register_consumer_replaces [OF h1 h2] w h2 ks
  show ?thesis
    by (simp add: test_registrations_def registration_of_def)
qed


end
